theory Spec2Isabelle
  imports Complex_Main "HOL-Library.Multiset" "HOL-Library.Sublist"
begin

section \<open>Feature selection by random shuffling\<close>

text \<open>
  The development embeds the permutation-importance procedure of the notebook
  \<^verbatim>\<open>11-Hybrid-methods/11.1-Feature-shuffling.ipynb\<close>: the classification loop

  \<^verbatim>\<open>
  train_roc = roc_auc_score(y_train, (rf.predict_proba(X_train))[:, 1])
  performance_shift = []
  for feature in X_train.columns:
      X_train_c = X_train.copy()
      X_train_c[feature] = X_train_c[feature].sample(
          frac=1, random_state=10).reset_index(drop=True)
      shuff_roc = roc_auc_score(y_train, rf.predict_proba(X_train_c)[:, 1])
      drift = train_roc - shuff_roc
      performance_shift.append(drift)
  feature_importance = pd.Series(performance_shift)
  feature_importance.index = X_train.columns
  selected_features = feature_importance[feature_importance > 0].index
  \<close>

  and its regression twin, which differs in the seed (\<open>random_state=11\<close>), in the
  collaborators (\<open>rf.predict\<close>, root-mean-square error) and in the selection
  (\<open>feature_importance[feature_importance<0].index\<close>).

  The fitted model, the metric and numpy's random generator are libraries outside the
  repository. They are parameters of the embedding:
  \<^item> \<open>predict\<close> maps the model and a data frame to one prediction per row, or raises.
    Both forests of the notebook are built with \<open>n_jobs=4\<close>: such a forest adds up
    the votes of its trees in the order in which its threads deliver them, and two
    calls on the same frame need not return the same numbers. What a call returns may
    therefore depend on the call as well, and \<open>predict\<close> is given the number of
    prediction calls made before it, which stands for whatever differs from one call
    to the next;
  \<^item> \<open>scorer\<close> maps the target and the predictions to a score, or raises;
  \<^item> \<open>choice random_state n k\<close> is the \<open>k\<close>-th index drawn by
    \<open>RandomState(random_state).choice(n, size=n, replace=False)\<close>, which is what
    \<open>Series.sample(frac=1, random_state=...)\<close> draws for a column of \<open>n\<close> rows.
  Scores are read as real numbers: the rounding of float arithmetic is not modelled.
\<close>

subsection \<open>Data frames, collaborators and the notebook's state\<close>

text \<open>
  A data frame is the ordered list of its named columns. The notebook resets the row
  index to \<open>0..N-1\<close> before the loop, so that a column is the list of its values by
  position and column assignment aligns by position.
\<close>

type_synonym 'a frame = "(string \<times> 'a list) list"

definition columns :: "'a frame \<Rightarrow> string list" where
  "columns X = map fst X"

text \<open>
  The notebook's state as far as the loop can touch it: the fitted model held in the
  global \<open>rf\<close>, and the calls made to the collaborators, oldest first.
\<close>

datatype 'a event = PredictCall "'a frame" | ScoreCall "real list" "real list"

record ('m, 'a) world =
  rf :: 'm
  calls :: "'a event list"

text \<open>
  The frames handed to the model and the targets handed to the scorer, read off the
  recorded calls; and the number of prediction calls made so far.
\<close>

fun predict_frames :: "'a event list \<Rightarrow> 'a frame list" where
  "predict_frames [] = []"
| "predict_frames (PredictCall X # es) = X # predict_frames es"
| "predict_frames (ScoreCall y p # es) = predict_frames es"

fun score_targets :: "'a event list \<Rightarrow> real list list" where
  "score_targets [] = []"
| "score_targets (PredictCall X # es) = score_targets es"
| "score_targets (ScoreCall y p # es) = y # score_targets es"

definition predictions_made :: "('m, 'a) world \<Rightarrow> nat" where
  "predictions_made w = length (predict_frames (calls w))"

text \<open>
  Exceptions: those raised by the collaborators, which carry the collaborator's
  message, and those pandas raises for an out-of-range position (\<open>take\<close>), an
  unknown column name and an index of the wrong length.
\<close>

datatype exn = PredictRaised string | ScorerRaised string | IndexError | KeyError | LengthMismatch

type_synonym ('m, 'a) predictor = "'m \<Rightarrow> nat \<Rightarrow> 'a frame \<Rightarrow> string + real list"

type_synonym scorer = "real list \<Rightarrow> real list \<Rightarrow> string + real"

type_synonym chooser = "int \<Rightarrow> nat \<Rightarrow> nat \<Rightarrow> nat"

definition call_predict ::
  "('m, 'a) predictor \<Rightarrow> 'a frame \<Rightarrow> ('m, 'a) world \<Rightarrow> (exn + real list) \<times> ('m, 'a) world" where
  "call_predict predict X w =
     ((case predict (rf w) (predictions_made w) X of
         Inl e \<Rightarrow> Inl (PredictRaised e)
       | Inr p \<Rightarrow> Inr p),
      w\<lparr>calls := calls w @ [PredictCall X]\<rparr>)"

definition call_scorer ::
  "scorer \<Rightarrow> real list \<Rightarrow> real list \<Rightarrow> ('m, 'a) world \<Rightarrow> (exn + real) \<times> ('m, 'a) world" where
  "call_scorer scorer y p w =
     ((case scorer y p of Inl e \<Rightarrow> Inl (ScorerRaised e) | Inr s \<Rightarrow> Inr s),
      w\<lparr>calls := calls w @ [ScoreCall y p]\<rparr>)"

text \<open>
  \<^verbatim>\<open>roc_auc_score(y_train, rf.predict_proba(X)[:, 1])\<close>: the prediction is computed
  first, then scored against the target.
\<close>

definition performance ::
  "('m, 'a) predictor \<Rightarrow> scorer \<Rightarrow> 'a frame \<Rightarrow> real list \<Rightarrow> ('m, 'a) world
     \<Rightarrow> (exn + real) \<times> ('m, 'a) world" where
  "performance predict scorer X y w =
     (case call_predict predict X w of
        (Inl e, w1) \<Rightarrow> (Inl e, w1)
      | (Inr p, w1) \<Rightarrow> call_scorer scorer y p w1)"

subsection \<open>Shuffling one column of a copy\<close>

text \<open>
  \<^verbatim>\<open>col.sample(frac=1, random_state=s).reset_index(drop=True)\<close>: a generator made
  afresh from the seed draws as many positions as the column has rows, the values at
  these positions are taken in the order drawn, and the result is indexed \<open>0..N-1\<close>
  again.
\<close>

definition sample :: "chooser \<Rightarrow> int \<Rightarrow> 'a list \<Rightarrow> exn + 'a list" where
  "sample choice random_state col =
     (let n = length col; locs = map (choice random_state n) [0..<n]
      in if list_all (\<lambda>i. i < n) locs then Inr (map (\<lambda>i. col ! i) locs) else Inl IndexError)"

text \<open>
  \<^verbatim>\<open>X_train_c[feature] = X_train_c[feature].sample(...).reset_index(drop=True)\<close>
  on the columns of the copy: a column of that name receives its own shuffled values,
  any other column is kept.
\<close>

fun set_shuffled :: "chooser \<Rightarrow> int \<Rightarrow> string \<Rightarrow> 'a frame \<Rightarrow> exn + 'a frame" where
  "set_shuffled choice random_state feature [] = Inr []"
| "set_shuffled choice random_state feature ((name, col) # rest) =
     (case (if name = feature then sample choice random_state col else Inr col) of
        Inl e \<Rightarrow> Inl e
      | Inr col' \<Rightarrow>
          (case set_shuffled choice random_state feature rest of
             Inl e \<Rightarrow> Inl e
           | Inr rest' \<Rightarrow> Inr ((name, col') # rest')))"

text \<open>
  \<^verbatim>\<open>X_train_c = X_train.copy()\<close> followed by the assignment: the result is a new
  frame, \<open>X\<close> itself stays as it is. Reading a column that the frame does not have
  raises.
\<close>

definition shuffled_copy :: "chooser \<Rightarrow> int \<Rightarrow> string \<Rightarrow> 'a frame \<Rightarrow> exn + 'a frame" where
  "shuffled_copy choice random_state feature X =
     (if feature \<in> set (columns X) then set_shuffled choice random_state feature X
      else Inl KeyError)"

subsection \<open>The loop and the importance series\<close>

text \<open>
  The body of \<^verbatim>\<open>for feature in X_train.columns\<close>, with the list
  \<open>performance_shift\<close> as accumulator. An exception leaves the loop at once.
\<close>

fun shuffle_loop ::
  "('m, 'a) predictor \<Rightarrow> scorer \<Rightarrow> chooser \<Rightarrow> int \<Rightarrow> 'a frame \<Rightarrow> real list \<Rightarrow> real
     \<Rightarrow> string list \<Rightarrow> real list \<Rightarrow> ('m, 'a) world \<Rightarrow> (exn + real list) \<times> ('m, 'a) world" where
  "shuffle_loop predict scorer choice random_state X y train [] performance_shift w =
     (Inr performance_shift, w)"
| "shuffle_loop predict scorer choice random_state X y train (feature # rest) performance_shift w =
     (case shuffled_copy choice random_state feature X of
        Inl e \<Rightarrow> (Inl e, w)
      | Inr X_c \<Rightarrow>
          (case performance predict scorer X_c y w of
             (Inl e, w') \<Rightarrow> (Inl e, w')
           | (Inr shuff, w') \<Rightarrow>
               shuffle_loop predict scorer choice random_state X y train rest
                 (performance_shift @ [train - shuff]) w'))"

text \<open>
  \<^verbatim>\<open>feature_importance = pd.Series(performance_shift)\<close> and
  \<^verbatim>\<open>feature_importance.index = X_train.columns\<close>: pandas refuses an index whose
  length differs from that of the series.
\<close>

definition feature_importance :: "real list \<Rightarrow> 'a frame \<Rightarrow> exn + (string \<times> real) list" where
  "feature_importance performance_shift X =
     (if length performance_shift = length (columns X)
      then Inr (zip (columns X) performance_shift)
      else Inl LengthMismatch)"

text \<open>
  The whole procedure: baseline score, loop over the columns, series. Both loops of
  the notebook are instances of it.
\<close>

definition evaluate ::
  "('m, 'a) predictor \<Rightarrow> scorer \<Rightarrow> chooser \<Rightarrow> int \<Rightarrow> 'a frame \<Rightarrow> real list
     \<Rightarrow> ('m, 'a) world \<Rightarrow> (exn + (string \<times> real) list) \<times> ('m, 'a) world" where
  "evaluate predict scorer choice random_state X y w =
     (case performance predict scorer X y w of
        (Inl e, w1) \<Rightarrow> (Inl e, w1)
      | (Inr train, w1) \<Rightarrow>
          (case shuffle_loop predict scorer choice random_state X y train (columns X) [] w1 of
             (Inl e, w2) \<Rightarrow> (Inl e, w2)
           | (Inr performance_shift, w2) \<Rightarrow> (feature_importance performance_shift X, w2)))"

definition classification_importance ::
  "('m, 'a) predictor \<Rightarrow> scorer \<Rightarrow> chooser \<Rightarrow> 'a frame \<Rightarrow> real list
     \<Rightarrow> ('m, 'a) world \<Rightarrow> (exn + (string \<times> real) list) \<times> ('m, 'a) world" where
  "classification_importance predict_proba roc_auc_score choice X_train y_train w =
     evaluate predict_proba roc_auc_score choice 10 X_train y_train w"

definition regression_importance ::
  "('m, 'a) predictor \<Rightarrow> scorer \<Rightarrow> chooser \<Rightarrow> 'a frame \<Rightarrow> real list
     \<Rightarrow> ('m, 'a) world \<Rightarrow> (exn + (string \<times> real) list) \<times> ('m, 'a) world" where
  "regression_importance predict mean_squared_error choice X_train y_train w =
     evaluate predict mean_squared_error choice 11 X_train y_train w"

text \<open>
  \<^verbatim>\<open>selected_features = feature_importance[feature_importance > 0].index\<close>
  (classification) and \<^verbatim>\<open>feat = feature_importance[feature_importance<0].index\<close>
  (regression): a boolean mask, which keeps the order of the series.
\<close>

definition selected_features :: "(string \<times> real) list \<Rightarrow> string list" where
  "selected_features fi = map fst (filter (\<lambda>(name, drift). drift > 0) fi)"

definition feat :: "(string \<times> real) list \<Rightarrow> string list" where
  "feat fi = map fst (filter (\<lambda>(name, drift). drift < 0) fi)"

subsection \<open>Observing a run\<close>

text \<open>
  Successful passes through the loop body for a list of features, the first of them
  making prediction call number \<open>k\<close>: for each feature the working copy, the
  prediction made from it and its score. And the two calls such a pass records.
\<close>

fun steps_ok ::
  "('m, 'a) predictor \<Rightarrow> scorer \<Rightarrow> chooser \<Rightarrow> int \<Rightarrow> 'm \<Rightarrow> 'a frame \<Rightarrow> real list \<Rightarrow> nat
     \<Rightarrow> string list \<Rightarrow> ('a frame \<times> real list \<times> real) list \<Rightarrow> bool" where
  "steps_ok predict scorer choice rs m X y k [] steps = (steps = [])"
| "steps_ok predict scorer choice rs m X y k (feature # rest) steps =
     (case steps of
        [] \<Rightarrow> False
      | (X_c, p, s) # steps' \<Rightarrow>
          shuffled_copy choice rs feature X = Inr X_c \<and> predict m k X_c = Inr p \<and>
          scorer y p = Inr s \<and> steps_ok predict scorer choice rs m X y (Suc k) rest steps')"

definition step_events :: "real list \<Rightarrow> 'a frame \<times> real list \<times> real \<Rightarrow> 'a event list" where
  "step_events y st = (case st of (X_c, p, s) \<Rightarrow> [PredictCall X_c, ScoreCall y p])"

subsection \<open>Properties of frames, generators and models\<close>

text \<open>
  Every column of a data frame has the same number \<open>N\<close> of rows. A column is constant
  when all its rows hold the same value. A generator draws in range for a frame when
  each position it draws for a column is a row of that column, and it honours
  \<open>replace=False\<close> for \<open>n\<close> rows when its \<open>n\<close> draws are the positions \<open>0..n-1\<close> in
  some order. A model is repeatable when what it predicts for a frame is the same at
  every call.
\<close>

definition rows :: "'a frame \<Rightarrow> nat \<Rightarrow> bool" where
  "rows X N = list_all (\<lambda>(name, col). length col = N) X"


definition in_range :: "chooser \<Rightarrow> int \<Rightarrow> 'a frame \<Rightarrow> bool" where
  "in_range choice random_state X =
     list_all (\<lambda>(name, col).
        list_all (\<lambda>k. choice random_state (length col) k < length col) [0..<length col]) X"

definition draws_permutation :: "chooser \<Rightarrow> int \<Rightarrow> nat \<Rightarrow> bool" where
  "draws_permutation choice random_state n =
     (mset (map (choice random_state n) [0..<n]) = mset [0..<n])"


subsection \<open>The specification's reading of drift and selection\<close>

text \<open>
  The specification normalises the sign of the drift by a declared direction of the
  metric, and orders the selected names by descending drift, ties in column order.
  These two definitions follow its words, for comparison with the notebook's code.
\<close>

datatype scorer_direction = HIGHER_IS_BETTER | LOWER_IS_BETTER

definition spec_drift :: "scorer_direction \<Rightarrow> real \<Rightarrow> real \<Rightarrow> real" where
  "spec_drift direction baseline_score shuffled_score =
     (let raw = baseline_score - shuffled_score
      in if direction = LOWER_IS_BETTER then - raw else raw)"

definition select_spec :: "(string \<times> real) list \<Rightarrow> real \<Rightarrow> string list" where
  "select_spec report threshold =
     map fst (sort_key (\<lambda>(name, drift). - drift)
                (filter (\<lambda>(name, drift). drift > threshold) report))"

subsection \<open>numpy's draws for the seeds of the notebook\<close>

text \<open>
  The positions that \<open>RandomState(s).choice(n, size=n, replace=False)\<close> returns for
  the two seeds of the notebook, \<open>s = 10\<close> and \<open>s = 11\<close>, and up to five rows. They
  are tabulated from numpy's generator: the Mersenne Twister seeded with \<open>s\<close>, whose
  outputs drive numpy's shuffle of \<open>0..n-1\<close> from the last position down. With up to
  two rows both seeds leave the positions in order. Other seeds and row counts do not
  occur in the examples below; for them the last line of the table only makes the
  function total and is not numpy's draw.
\<close>

definition numpy_draws :: "int \<Rightarrow> nat \<Rightarrow> nat list" where
  "numpy_draws random_state n =
     (if random_state = 10 \<and> n = 3 then [0, 2, 1]
      else if random_state = 10 \<and> n = 4 then [2, 0, 3, 1]
      else if random_state = 10 \<and> n = 5 then [2, 3, 0, 4, 1]
      else if random_state = 11 \<and> n = 3 then [0, 2, 1]
      else if random_state = 11 \<and> n = 4 then [2, 3, 0, 1]
      else if random_state = 11 \<and> n = 5 then [2, 4, 0, 3, 1]
      else [0..<n])"

definition numpy_choice :: chooser where
  "numpy_choice random_state n k = numpy_draws random_state n ! k"

subsection \<open>Concrete collaborators for the examples\<close>

text \<open>
  A model that predicts, for each row, the value of the one column it was fitted on
  (the model is that column's name), the same at every call; a model of the same
  kind that is not repeatable: its prediction call number \<open>k\<close> is off by \<open>k/8\<close> in
  every row, which stands for a predictor that, like a forest whose threads deliver
  the votes in another order, answers two calls on the same frame with other
  numbers; the total absolute error, which pairs target and prediction as far as
  both go; and the root-mean-square error, which refuses inputs of different lengths
  and empty inputs.
\<close>

definition column_model :: "(string, real) predictor" where
  "column_model name k X =
     (case map_of X name of None \<Rightarrow> Inl ''unknown column'' | Some c \<Rightarrow> Inr c)"


definition abs_error :: scorer where
  "abs_error y p = Inr (sum_list (map (\<lambda>(t, q). \<bar>t - q\<bar>) (zip y p)))"

definition rmse :: scorer where
  "rmse y p =
     (if length y \<noteq> length p then Inl ''inconsistent numbers of samples''
      else if y = [] then Inl ''no samples''
      else Inr (sqrt (sum_list (map (\<lambda>(t, q). (t - q)\<^sup>2) (zip y p)) / real (length y))))"

definition fitted_on :: "string \<Rightarrow> (string, real) world" where
  "fitted_on name = \<lparr>rf = name, calls = []\<rparr>"

text \<open>
  A frame of three rows with a column \<open>x\<close> and a constant column \<open>c\<close>, a target, and
  the calls that one run, and a second run after it, make with a model fitted on
  \<open>x\<close>: seed \<open>10\<close> draws the rows of a column in the order \<open>0, 2, 1\<close>.
\<close>

definition frame_xc :: "real frame" where
  "frame_xc = [(''x'', [1, 2, 3]), (''c'', [9, 9, 9])]"

definition target_123 :: "real list" where
  "target_123 = [1, 2, 3]"

definition calls_xc :: "real event list" where
  "calls_xc =
     [PredictCall [(''x'', [1, 2, 3]), (''c'', [9, 9, 9])], ScoreCall [1, 2, 3] [1, 2, 3],
      PredictCall [(''x'', [1, 3, 2]), (''c'', [9, 9, 9])], ScoreCall [1, 2, 3] [1, 3, 2],
      PredictCall [(''x'', [1, 2, 3]), (''c'', [9, 9, 9])], ScoreCall [1, 2, 3] [1, 2, 3]]"

definition world_after_xc :: "(string, real) world" where
  "world_after_xc = \<lparr>rf = ''x'', calls = calls_xc\<rparr>"



text \<open>
  The regression scenario: four rows of one column \<open>z\<close> whose value the model
  predicts, with a baseline root-mean-square error of \<open>100\<close>. Seed \<open>11\<close> draws the
  rows in the order \<open>2, 3, 0, 1\<close>, which raises the error to \<open>150\<close>.
\<close>

definition frame_z :: "real frame" where
  "frame_z = [(''z'', [100, 100, 150, 150])]"

definition target_z :: "real list" where
  "target_z = [0, 0, 250, 250]"

definition world_after_z :: "(string, real) world" where
  "world_after_z =
     \<lparr>rf = ''z'',
      calls = [PredictCall [(''z'', [100, 100, 150, 150])],
               ScoreCall [0, 0, 250, 250] [100, 100, 150, 150],
               PredictCall [(''z'', [150, 150, 100, 100])],
               ScoreCall [0, 0, 250, 250] [150, 150, 100, 100]]\<rparr>"


text \<open>
  A frame of two rows with a target of one value only.
\<close>

definition frame_x :: "real frame" where
  "frame_x = [(''x'', [1, 2])]"

definition target_short :: "real list" where
  "target_short = [1]"

section \<open>Auxiliary facts\<close>

subsection \<open>Calls to the collaborators\<close>

lemma predict_frames_append: "predict_frames (es @ fs) = predict_frames es @ predict_frames fs"
  by (induction es rule: predict_frames.induct) simp_all

lemma score_targets_append: "score_targets (es @ fs) = score_targets es @ score_targets fs"
  by (induction es rule: score_targets.induct) simp_all

lemma predictions_made_step [simp]:
  "predictions_made (w\<lparr>calls := calls w @ [PredictCall X, ScoreCall y p]\<rparr>) = Suc (predictions_made w)"
  by (simp add: predictions_made_def predict_frames_append)

lemma performance_Inr:
  "performance predict scorer X y w = (Inr s, w') \<longleftrightarrow>
     (\<exists>p. predict (rf w) (predictions_made w) X = Inr p \<and> scorer y p = Inr s \<and>
          w' = w\<lparr>calls := calls w @ [PredictCall X, ScoreCall y p]\<rparr>)"
  by (auto simp: performance_def call_predict_def call_scorer_def split: sum.splits)

lemma performance_Inl:
  "performance predict scorer X y w = (Inl e, w') \<longleftrightarrow>
     (\<exists>e'. predict (rf w) (predictions_made w) X = Inl e' \<and> e = PredictRaised e' \<and>
          w' = w\<lparr>calls := calls w @ [PredictCall X]\<rparr>) \<or>
     (\<exists>p e'. predict (rf w) (predictions_made w) X = Inr p \<and> scorer y p = Inl e' \<and>
          e = ScorerRaised e' \<and>
          w' = w\<lparr>calls := calls w @ [PredictCall X, ScoreCall y p]\<rparr>)"
  by (auto simp: performance_def call_predict_def call_scorer_def split: sum.splits)

lemma rf_performance: "rf (snd (performance predict scorer X y w)) = rf w"
  by (simp add: performance_def call_predict_def call_scorer_def split: sum.splits)


lemma set_shuffled_Inr:
  "set_shuffled choice rs f X = Inr X_c \<Longrightarrow>
     map fst X_c = map fst X \<and>
     (\<forall>i<length X. (fst (X ! i) \<noteq> f \<longrightarrow> X_c ! i = X ! i) \<and>
                   (fst (X ! i) = f \<longrightarrow> sample choice rs (snd (X ! i)) = Inr (snd (X_c ! i))))"
proof (induction X arbitrary: X_c)
  case Nil
  then show ?case by simp
next
  case (Cons a X)
  obtain name col where a: "a = (name, col)" by (cases a)
  show ?case using Cons.prems Cons.IH unfolding a
    by (auto split: sum.splits if_splits simp: nth_Cons split: nat.splits)
qed

lemma shuffled_copy_Inr:
  assumes "shuffled_copy choice rs f X = Inr X_c"
  shows "columns X_c = columns X" and "length X_c = length X"
    and "\<And>i. i < length X \<Longrightarrow> fst (X ! i) \<noteq> f \<Longrightarrow> X_c ! i = X ! i"
    and "\<And>i. i < length X \<Longrightarrow> fst (X ! i) = f \<Longrightarrow> sample choice rs (snd (X ! i)) = Inr (snd (X_c ! i))"
proof -
  from assms have s: "set_shuffled choice rs f X = Inr X_c"
    by (simp add: shuffled_copy_def split: if_splits)
  from set_shuffled_Inr [OF s] show "columns X_c = columns X"
    by (simp add: columns_def)
  then show "length X_c = length X"
    unfolding columns_def by (rule map_eq_imp_length_eq)
  from set_shuffled_Inr [OF s] show "\<And>i. i < length X \<Longrightarrow> fst (X ! i) \<noteq> f \<Longrightarrow> X_c ! i = X ! i"
    by blast
  from set_shuffled_Inr [OF s]
  show "\<And>i. i < length X \<Longrightarrow> fst (X ! i) = f \<Longrightarrow> sample choice rs (snd (X ! i)) = Inr (snd (X_c ! i))"
    by blast
qed

subsection \<open>The loop\<close>

lemma steps_ok_Cons:
  "steps_ok predict scorer choice rs m X y k (feature # rest) ((X_c, p, s) # steps) \<longleftrightarrow>
     shuffled_copy choice rs feature X = Inr X_c \<and> predict m k X_c = Inr p \<and>
     scorer y p = Inr s \<and> steps_ok predict scorer choice rs m X y (Suc k) rest steps"
  by simp

lemma steps_ok_nth:
  "steps_ok predict scorer choice rs m X y k names steps \<Longrightarrow>
     length steps = length names \<and>
     (\<forall>j<length names.
        shuffled_copy choice rs (names ! j) X = Inr (fst (steps ! j)) \<and>
        predict m (k + j) (fst (steps ! j)) = Inr (fst (snd (steps ! j))) \<and>
        scorer y (fst (snd (steps ! j))) = Inr (snd (snd (steps ! j))))"
proof (induction names arbitrary: k steps)
  case Nil
  then show ?case by simp
next
  case (Cons feature rest)
  from Cons.prems obtain X_c p s steps' where
    steps: "steps = (X_c, p, s) # steps'"
    by (cases steps) auto
  with Cons.prems have
    hd: "shuffled_copy choice rs feature X = Inr X_c" "predict m k X_c = Inr p" "scorer y p = Inr s"
    and tl: "steps_ok predict scorer choice rs m X y (Suc k) rest steps'"
    by simp_all
  note ih = Cons.IH [OF tl]
  have "shuffled_copy choice rs ((feature # rest) ! j) X = Inr (fst (steps ! j)) \<and>
        predict m (k + j) (fst (steps ! j)) = Inr (fst (snd (steps ! j))) \<and>
        scorer y (fst (snd (steps ! j))) = Inr (snd (snd (steps ! j)))"
    if j: "j < length (feature # rest)" for j
  proof (cases j)
    case 0
    with hd steps show ?thesis by simp
  next
    case (Suc i)
    with j have "i < length rest" by simp
    with ih Suc steps show ?thesis by simp
  qed
  moreover have "length steps = length (feature # rest)" using ih steps by simp
  ultimately show ?case by blast
qed

lemma shuffle_loop_Inr:
  "shuffle_loop predict scorer choice rs X y train names shift w = (Inr shift', w') \<Longrightarrow>
     \<exists>steps. steps_ok predict scorer choice rs (rf w) X y (predictions_made w) names steps \<and>
             shift' = shift @ map (\<lambda>st. train - snd (snd st)) steps \<and>
             w' = w\<lparr>calls := calls w @ concat (map (step_events y) steps)\<rparr>"
proof (induction names arbitrary: shift w)
  case Nil
  then show ?case by simp
next
  case (Cons feature rest)
  from Cons.prems obtain X_c where c: "shuffled_copy choice rs feature X = Inr X_c"
    by (auto split: sum.splits)
  from Cons.prems c obtain s w1 where
    p: "performance predict scorer X_c y w = (Inr s, w1)" and
    r: "shuffle_loop predict scorer choice rs X y train rest (shift @ [train - s]) w1 = (Inr shift', w')"
    by (auto split: sum.splits prod.splits)
  from p obtain p0 where
    p0: "predict (rf w) (predictions_made w) X_c = Inr p0" "scorer y p0 = Inr s"
      "w1 = w\<lparr>calls := calls w @ [PredictCall X_c, ScoreCall y p0]\<rparr>"
    unfolding performance_Inr by blast
  from Cons.IH [OF r] obtain steps where
    st: "steps_ok predict scorer choice rs (rf w1) X y (predictions_made w1) rest steps"
      "shift' = (shift @ [train - s]) @ map (\<lambda>st. train - snd (snd st)) steps"
      "w' = w1\<lparr>calls := calls w1 @ concat (map (step_events y) steps)\<rparr>"
    by blast
  have m: "rf w1 = rf w" and n: "predictions_made w1 = Suc (predictions_made w)"
    using p0(3) by simp_all
  let ?steps = "(X_c, p0, s) # steps"
  have "steps_ok predict scorer choice rs (rf w) X y (predictions_made w) (feature # rest) ?steps"
    using st(1) c p0(1,2) unfolding steps_ok_Cons m n by simp
  moreover have "shift' = shift @ map (\<lambda>st. train - snd (snd st)) ?steps"
    using st(2) by simp
  moreover have "w' = w\<lparr>calls := calls w @ concat (map (step_events y) ?steps)\<rparr>"
    using st(3) p0(3) by (simp add: step_events_def)
  ultimately show ?case by blast
qed

lemma shuffle_loop_Inr_conv:
  "steps_ok predict scorer choice rs (rf w) X y (predictions_made w) names steps \<Longrightarrow>
   shuffle_loop predict scorer choice rs X y train names shift w =
     (Inr (shift @ map (\<lambda>st. train - snd (snd st)) steps),
      w\<lparr>calls := calls w @ concat (map (step_events y) steps)\<rparr>)"
proof (induction names arbitrary: shift w steps)
  case Nil
  then show ?case by simp
next
  case (Cons feature rest)
  from Cons.prems obtain X_c p s steps' where
    steps: "steps = (X_c, p, s) # steps'"
    by (cases steps) auto
  with Cons.prems have
    hd: "shuffled_copy choice rs feature X = Inr X_c"
      "predict (rf w) (predictions_made w) X_c = Inr p" "scorer y p = Inr s"
    and tl: "steps_ok predict scorer choice rs (rf w) X y (Suc (predictions_made w)) rest steps'"
    by simp_all
  let ?w1 = "w\<lparr>calls := calls w @ [PredictCall X_c, ScoreCall y p]\<rparr>"
  have perf: "performance predict scorer X_c y w = (Inr s, ?w1)"
    using hd unfolding performance_Inr by simp
  have "steps_ok predict scorer choice rs (rf ?w1) X y (predictions_made ?w1) rest steps'"
    using tl by simp
  from Cons.IH [OF this, of "shift @ [train - s]"] show ?case
    using hd perf by (simp add: steps step_events_def)
qed

lemma predict_frames_steps:
  "predict_frames (concat (map (step_events y) steps)) = map fst steps"
  by (induction steps) (auto simp: step_events_def)

lemma score_targets_steps:
  "score_targets (concat (map (step_events y) steps)) = replicate (length steps) y"
  by (induction steps) (auto simp: step_events_def)

lemma evaluate_Inr:
  assumes "evaluate predict scorer choice rs X y w = (Inr report, w')"
  shows "\<exists>p0 train steps.
           predict (rf w) (predictions_made w) X = Inr p0 \<and> scorer y p0 = Inr train \<and>
           steps_ok predict scorer choice rs (rf w) X y (Suc (predictions_made w)) (columns X) steps \<and>
           report = zip (columns X) (map (\<lambda>st. train - snd (snd st)) steps) \<and>
           w' = w\<lparr>calls := calls w @ [PredictCall X, ScoreCall y p0] @ concat (map (step_events y) steps)\<rparr>"
proof -
  from assms obtain train w1 where
    b: "performance predict scorer X y w = (Inr train, w1)"
    by (auto simp: evaluate_def split: sum.splits prod.splits)
  from assms b obtain shift where
    l: "shuffle_loop predict scorer choice rs X y train (columns X) [] w1 = (Inr shift, w')" and
    f: "feature_importance shift X = Inr report"
    by (auto simp: evaluate_def split: sum.splits prod.splits)
  from b obtain p0 where
    p0: "predict (rf w) (predictions_made w) X = Inr p0" "scorer y p0 = Inr train"
      "w1 = w\<lparr>calls := calls w @ [PredictCall X, ScoreCall y p0]\<rparr>"
    unfolding performance_Inr by blast
  from shuffle_loop_Inr [OF l] obtain steps where
    st: "steps_ok predict scorer choice rs (rf w1) X y (predictions_made w1) (columns X) steps"
      "shift = [] @ map (\<lambda>st. train - snd (snd st)) steps"
      "w' = w1\<lparr>calls := calls w1 @ concat (map (step_events y) steps)\<rparr>"
    by blast
  have "report = zip (columns X) (map (\<lambda>st. train - snd (snd st)) steps)"
    using f st(2) by (simp add: feature_importance_def split: if_splits)
  moreover
  have "steps_ok predict scorer choice rs (rf w) X y (Suc (predictions_made w)) (columns X) steps"
    using st(1) p0(3) by simp
  moreover have "w' = w\<lparr>calls := calls w @ [PredictCall X, ScoreCall y p0] @ concat (map (step_events y) steps)\<rparr>"
    using st(3) p0(3) by simp
  ultimately show ?thesis using p0(1,2) by blast
qed

lemma steps_nth:
  assumes "steps_ok predict scorer choice rs m X y k (columns X) steps"
  shows "length steps = length X"
    and "\<And>j. j < length X \<Longrightarrow>
           shuffled_copy choice rs (fst (X ! j)) X = Inr (fst (steps ! j)) \<and>
           predict m (k + j) (fst (steps ! j)) = Inr (fst (snd (steps ! j))) \<and>
           scorer y (fst (snd (steps ! j))) = Inr (snd (snd (steps ! j)))"
proof -
  note n = steps_ok_nth [OF assms]
  from n show "length steps = length X" by (simp add: columns_def)
  fix j assume j: "j < length X"
  with n show "shuffled_copy choice rs (fst (X ! j)) X = Inr (fst (steps ! j)) \<and>
           predict m (k + j) (fst (steps ! j)) = Inr (fst (snd (steps ! j))) \<and>
           scorer y (fst (snd (steps ! j))) = Inr (snd (snd (steps ! j)))"
    by (simp add: columns_def)
qed

lemma shuffle_loop_world:
  "rf (snd (shuffle_loop predict scorer choice rs X y train names shift w)) = rf w \<and>
   (\<exists>new. calls (snd (shuffle_loop predict scorer choice rs X y train names shift w)) = calls w @ new \<and>
          length (predict_frames new) \<le> length names)"
proof (induction names arbitrary: shift w)
  case Nil
  then show ?case by simp
next
  case (Cons feature rest)
  show ?case
  proof (cases "shuffled_copy choice rs feature X")
    case (Inl e)
    then show ?thesis by simp
  next
    case (Inr X_c)
    obtain r w1 where p: "performance predict scorer X_c y w = (r, w1)"
      by (cases "performance predict scorer X_c y w")
    show ?thesis
    proof (cases r)
      case (Inl e)
      with p have "performance predict scorer X_c y w = (Inl e, w1)" by simp
      then have "w1 = w\<lparr>calls := calls w @ [PredictCall X_c]\<rparr> \<or>
          (\<exists>q. w1 = w\<lparr>calls := calls w @ [PredictCall X_c, ScoreCall y q]\<rparr>)"
        unfolding performance_Inl by blast
      then show ?thesis using Inr p Inl by auto
    next
      case s: (Inr s)
      with p have "performance predict scorer X_c y w = (Inr s, w1)" by simp
      then obtain q where w1: "w1 = w\<lparr>calls := calls w @ [PredictCall X_c, ScoreCall y q]\<rparr>"
        unfolding performance_Inr by blast
      from Cons.IH [of "shift @ [train - s]" w1] obtain new where
        "rf (snd (shuffle_loop predict scorer choice rs X y train rest (shift @ [train - s]) w1)) = rf w1"
        "calls (snd (shuffle_loop predict scorer choice rs X y train rest (shift @ [train - s]) w1)) = calls w1 @ new"
        "length (predict_frames new) \<le> length rest"
        by blast
      then show ?thesis using Inr p s w1 by (simp add: predict_frames_append)
    qed
  qed
qed



lemma evaluate_world:
  "rf (snd (evaluate predict scorer choice rs X y w)) = rf w \<and>
   (\<exists>new. calls (snd (evaluate predict scorer choice rs X y w)) = calls w @ PredictCall X # new \<and>
          length (predict_frames new) \<le> length X)"
proof -
  obtain r w1 where p: "performance predict scorer X y w = (r, w1)"
    by (cases "performance predict scorer X y w")
  show ?thesis
  proof (cases r)
    case (Inl e)
    with p have "performance predict scorer X y w = (Inl e, w1)" by simp
    then have "w1 = w\<lparr>calls := calls w @ [PredictCall X]\<rparr> \<or>
        (\<exists>q. w1 = w\<lparr>calls := calls w @ [PredictCall X, ScoreCall y q]\<rparr>)"
      unfolding performance_Inl by blast
    then show ?thesis using p Inl by (auto simp: evaluate_def)
  next
    case (Inr train)
    with p have "performance predict scorer X y w = (Inr train, w1)" by simp
    then obtain q where w1: "w1 = w\<lparr>calls := calls w @ [PredictCall X, ScoreCall y q]\<rparr>"
      unfolding performance_Inr by blast
    from shuffle_loop_world [of predict scorer choice rs X y train "columns X" "[]" w1]
    obtain new where n:
      "rf (snd (shuffle_loop predict scorer choice rs X y train (columns X) [] w1)) = rf w1"
      "calls (snd (shuffle_loop predict scorer choice rs X y train (columns X) [] w1)) = calls w1 @ new"
      "length (predict_frames new) \<le> length (columns X)"
      by blast
    obtain r2 w2 where l: "shuffle_loop predict scorer choice rs X y train (columns X) [] w1 = (r2, w2)"
      by (cases "shuffle_loop predict scorer choice rs X y train (columns X) [] w1")
    have "snd (evaluate predict scorer choice rs X y w) = w2"
      using p Inr l by (simp add: evaluate_def split: sum.splits)
    then show ?thesis using n l w1 by (simp add: columns_def)
  qed
qed

subsection \<open>Shuffled columns\<close>

lemma sample_Inr_iff:
  "sample choice rs col = Inr col' \<longleftrightarrow>
     (\<forall>k<length col. choice rs (length col) k < length col) \<and>
     col' = map (\<lambda>k. col ! choice rs (length col) k) [0..<length col]"
  by (auto simp: sample_def Let_def list_all_iff o_def)

lemma draws_permutation_in_range:
  assumes "draws_permutation choice rs n" and "k < n"
  shows "choice rs n k < n"
proof -
  from assms(1) have "set (map (choice rs n) [0..<n]) = set [0..<n]"
    unfolding draws_permutation_def by (rule mset_eq_setD)
  with assms(2) show ?thesis by auto
qed

lemma sample_permutation:
  assumes "draws_permutation choice rs (length col)"
  shows "\<exists>col'. sample choice rs col = Inr col' \<and> mset col' = mset col"
proof -
  let ?n = "length col"
  let ?locs = "map (choice rs ?n) [0..<?n]"
  have r: "\<forall>k<?n. choice rs ?n k < ?n"
    using draws_permutation_in_range [OF assms] by blast
  have "mset (map (\<lambda>i. col ! i) ?locs) = image_mset (\<lambda>i. col ! i) (mset ?locs)"
    by (rule mset_map)
  also have "\<dots> = image_mset (\<lambda>i. col ! i) (mset [0..<?n])"
    using assms by (simp only: draws_permutation_def)
  also have "\<dots> = mset (map (\<lambda>i. col ! i) [0..<?n])"
    by (rule mset_map [symmetric])
  also have "\<dots> = mset col"
    by (simp add: map_nth)
  finally have "mset (map (\<lambda>k. col ! choice rs ?n k) [0..<?n]) = mset col"
    by (simp add: o_def)
  with r show ?thesis unfolding sample_Inr_iff by blast
qed

lemma set_shuffled_succeeds:
  "(\<And>name col. (name, col) \<in> set X \<Longrightarrow> name = f \<Longrightarrow> \<exists>col'. sample choice rs col = Inr col') \<Longrightarrow>
   \<exists>X_c. set_shuffled choice rs f X = Inr X_c"
proof (induction X)
  case Nil
  then show ?case by simp
next
  case (Cons a X)
  obtain name col where a: "a = (name, col)" by (cases a)
  from Cons.IH Cons.prems obtain X_r where r: "set_shuffled choice rs f X = Inr X_r"
    by auto
  show ?case
  proof (cases "name = f")
    case True
    with Cons.prems [of name col] a obtain col' where "sample choice rs col = Inr col'"
      by auto
    with r True show ?thesis by (simp add: a)
  next
    case False
    with r show ?thesis by (simp add: a)
  qed
qed

lemma rows_mem: "rows X N \<Longrightarrow> (name, col) \<in> set X \<Longrightarrow> length col = N"
  by (auto simp: rows_def list_all_iff)

lemma rows_nth:
  assumes "rows X N" and "i < length X"
  shows "length (snd (X ! i)) = N"
proof -
  from assms(2) have "(fst (X ! i), snd (X ! i)) \<in> set X" by simp
  with assms(1) show ?thesis by (rule rows_mem)
qed




subsection \<open>Failure and success of a run\<close>

lemma in_range_mem:
  "in_range choice rs X \<Longrightarrow> (name, col) \<in> set X \<Longrightarrow> k < length col \<Longrightarrow>
     choice rs (length col) k < length col"
  by (auto simp: in_range_def list_all_iff)

lemma sample_Inl: "sample choice rs col = Inl e \<Longrightarrow>
    e = IndexError \<and> (\<exists>k<length col. \<not> choice rs (length col) k < length col)"
  by (auto simp: sample_def Let_def list_all_iff split: if_splits)

lemma set_shuffled_Inl:
  "set_shuffled choice rs f X = Inl e \<Longrightarrow> e = IndexError \<and> \<not> in_range choice rs X"
proof (induction X)
  case Nil
  then show ?case by simp
next
  case (Cons a X)
  obtain name col where a: "a = (name, col)" by (cases a)
  have tl: "\<not> in_range choice rs (a # X)" if "\<not> in_range choice rs X"
    using that by (simp add: in_range_def)
  have hd: "\<not> in_range choice rs (a # X)"
    if "\<exists>k<length col. \<not> choice rs (length col) k < length col"
    using that by (auto simp: in_range_def a list_all_iff)
  let ?new = "if name = f then sample choice rs col else Inr col"
  show ?case
  proof (cases ?new)
    case (Inl e')
    then have s: "sample choice rs col = Inl e'" by (simp split: if_splits)
    from Cons.prems Inl have "e' = e" by (simp add: a)
    with sample_Inl [OF s] hd show ?thesis by blast
  next
    case (Inr col')
    with Cons.prems have "set_shuffled choice rs f X = Inl e"
      by (simp add: a split: sum.splits)
    from Cons.IH [OF this] tl show ?thesis by blast
  qed
qed

lemma shuffled_copy_Inl:
  "shuffled_copy choice rs f X = Inl e \<Longrightarrow> f \<in> set (columns X) \<Longrightarrow>
     e = IndexError \<and> \<not> in_range choice rs X"
  by (simp add: shuffled_copy_def set_shuffled_Inl)

lemma shuffle_loop_Inl:
  "shuffle_loop predict scorer choice rs X y train names shift w = (Inl e, w') \<Longrightarrow>
   set names \<subseteq> set (columns X) \<Longrightarrow>
     (\<exists>k X' msg. e = PredictRaised msg \<and> predict (rf w) k X' = Inl msg) \<or>
     (\<exists>p msg. e = ScorerRaised msg \<and> scorer y p = Inl msg) \<or>
     (e = IndexError \<and> \<not> in_range choice rs X)"
proof (induction names arbitrary: shift w)
  case Nil
  then show ?case by simp
next
  case (Cons feature rest)
  from Cons.prems(2) have f: "feature \<in> set (columns X)" and r: "set rest \<subseteq> set (columns X)"
    by simp_all
  show ?case
  proof (cases "shuffled_copy choice rs feature X")
    case (Inl e')
    with Cons.prems(1) have "e' = e" by simp
    with shuffled_copy_Inl [OF Inl f] show ?thesis by simp
  next
    case (Inr X_c)
    obtain res w1 where p: "performance predict scorer X_c y w = (res, w1)"
      by (cases "performance predict scorer X_c y w")
    show ?thesis
    proof (cases res)
      case (Inl e')
      with Cons.prems(1) Inr p have "e' = e" by simp
      with p Inl have "performance predict scorer X_c y w = (Inl e, w1)" by simp
      then show ?thesis unfolding performance_Inl by blast
    next
      case s: (Inr s)
      with Cons.prems(1) Inr p have
        l: "shuffle_loop predict scorer choice rs X y train rest (shift @ [train - s]) w1 = (Inl e, w')"
        by simp
      have "rf w1 = rf w" using rf_performance [of predict scorer X_c y w] p by simp
      with Cons.IH [OF l r] show ?thesis by simp
    qed
  qed
qed

lemma evaluate_Inl:
  assumes "fst (evaluate predict scorer choice rs X y w) = Inl e"
  shows "(\<exists>k X' msg. e = PredictRaised msg \<and> predict (rf w) k X' = Inl msg) \<or>
     (\<exists>p msg. e = ScorerRaised msg \<and> scorer y p = Inl msg) \<or>
     (e = IndexError \<and> \<not> in_range choice rs X)"
proof -
  obtain res w1 where p: "performance predict scorer X y w = (res, w1)"
    by (cases "performance predict scorer X y w")
  show ?thesis
  proof (cases res)
    case (Inl e')
    with assms p have "e' = e" by (simp add: evaluate_def)
    with p Inl have "performance predict scorer X y w = (Inl e, w1)" by simp
    then show ?thesis unfolding performance_Inl by blast
  next
    case train: (Inr train)
    have m: "rf w1 = rf w" using rf_performance [of predict scorer X y w] p by simp
    obtain res2 w2 where
      l: "shuffle_loop predict scorer choice rs X y train (columns X) [] w1 = (res2, w2)"
      by (cases "shuffle_loop predict scorer choice rs X y train (columns X) [] w1")
    show ?thesis
    proof (cases res2)
      case (Inl e')
      with assms p train l have "e' = e" by (simp add: evaluate_def)
      with l Inl have "shuffle_loop predict scorer choice rs X y train (columns X) [] w1 = (Inl e, w2)"
        by simp
      from shuffle_loop_Inl [OF this] m show ?thesis by simp
    next
      case (Inr shift)
      with l have "shuffle_loop predict scorer choice rs X y train (columns X) [] w1 = (Inr shift, w2)"
        by simp
      from shuffle_loop_Inr [OF this] obtain steps where
        "steps_ok predict scorer choice rs (rf w1) X y (predictions_made w1) (columns X) steps"
        "shift = [] @ map (\<lambda>st. train - snd (snd st)) steps"
        by blast
      then have "length shift = length (columns X)"
        using steps_ok_nth by fastforce
      with assms p train l Inr show ?thesis
        by (simp add: evaluate_def feature_importance_def)
    qed
  qed
qed

lemma steps_exist:
  assumes P: "\<forall>k X'. columns X' = columns X \<longrightarrow> (\<exists>p. predict m k X' = Inr p)"
    and S: "\<forall>p. \<exists>s. scorer y p = Inr s"
    and R: "in_range choice rs X"
  shows "set names \<subseteq> set (columns X) \<Longrightarrow>
         \<exists>steps. steps_ok predict scorer choice rs m X y k names steps"
proof (induction names arbitrary: k)
  case Nil
  then show ?case by simp
next
  case (Cons feature rest)
  then obtain steps where st: "steps_ok predict scorer choice rs m X y (Suc k) rest steps"
    by auto
  have "\<exists>col'. sample choice rs col = Inr col'" if "(name, col) \<in> set X" for name col
    unfolding sample_Inr_iff using in_range_mem [OF R that] by blast
  with set_shuffled_succeeds [of X feature choice rs] obtain X_c where
    "set_shuffled choice rs feature X = Inr X_c"
    by blast
  with Cons.prems have c: "shuffled_copy choice rs feature X = Inr X_c"
    by (simp add: shuffled_copy_def)
  from P shuffled_copy_Inr(1) [OF c] obtain p where p: "predict m k X_c = Inr p" by blast
  from S obtain s where s: "scorer y p = Inr s" by blast
  have "steps_ok predict scorer choice rs m X y k (feature # rest) ((X_c, p, s) # steps)"
    using st c p s by simp
  then show ?case by blast
qed

lemma evaluate_succeeds:
  assumes P: "\<forall>k X'. columns X' = columns X \<longrightarrow> (\<exists>p. predict (rf w) k X' = Inr p)"
    and S: "\<forall>p. \<exists>s. scorer y p = Inr s"
    and R: "in_range choice rs X"
  shows "\<exists>report. fst (evaluate predict scorer choice rs X y w) = Inr report"
proof -
  from P obtain p0 where p0: "predict (rf w) (predictions_made w) X = Inr p0" by blast
  from S obtain train where t: "scorer y p0 = Inr train" by blast
  let ?w1 = "w\<lparr>calls := calls w @ [PredictCall X, ScoreCall y p0]\<rparr>"
  have b: "performance predict scorer X y w = (Inr train, ?w1)"
    unfolding performance_Inr using p0 t by simp
  have "\<exists>steps. steps_ok predict scorer choice rs (rf w) X y (Suc (predictions_made w)) (columns X) steps"
    by (rule steps_exist [where predict = predict and m = "rf w" and scorer = scorer and y = y
          and X = X and choice = choice and rs = rs, OF P S R]) simp
  then obtain steps where
    st: "steps_ok predict scorer choice rs (rf w) X y (Suc (predictions_made w)) (columns X) steps"
    by blast
  then have "steps_ok predict scorer choice rs (rf ?w1) X y (predictions_made ?w1) (columns X) steps"
    by simp
  note l = shuffle_loop_Inr_conv [OF this, of train "[]"]
  have "length steps = length (columns X)" using steps_ok_nth [OF st] by simp
  then show ?thesis using b l by (simp add: evaluate_def feature_importance_def)
qed

subsection \<open>Runs on the example frames\<close>

lemma example_run:
  "evaluate column_model abs_error numpy_choice 10 frame_xc target_123 (fitted_on ''x'') =
     (Inr [(''x'', - 2), (''c'', 0)], world_after_xc)"
  by (simp add: evaluate_def performance_def call_predict_def call_scorer_def columns_def
      shuffled_copy_def sample_def feature_importance_def column_model_def abs_error_def
      numpy_choice_def numpy_draws_def fitted_on_def frame_xc_def target_123_def
      world_after_xc_def calls_xc_def predictions_made_def Let_def upt_rec)




lemma regression_run:
  "regression_importance column_model rmse numpy_choice frame_z target_z (fitted_on ''z'') =
     (Inr [(''z'', - 50)], world_after_z)"
  by (simp add: regression_importance_def evaluate_def performance_def call_predict_def
      call_scorer_def columns_def shuffled_copy_def sample_def feature_importance_def
      column_model_def rmse_def numpy_choice_def numpy_draws_def fitted_on_def frame_z_def
      target_z_def world_after_z_def predictions_made_def Let_def upt_rec)

lemma shuffled_copy_x:
  "shuffled_copy numpy_choice 10 ''x'' frame_xc = Inr [(''x'', [1, 3, 2]), (''c'', [9, 9, 9])]"
  by (simp add: shuffled_copy_def columns_def sample_def numpy_choice_def numpy_draws_def
      frame_xc_def Let_def upt_rec)

lemma column_model_total: "name \<in> set (columns X) \<Longrightarrow> \<exists>p. column_model name k X = Inr p"
  by (cases "map_of X name") (auto simp: column_model_def columns_def map_of_eq_None_iff)


lemma numpy_draws_permutation_3: "draws_permutation numpy_choice 10 3"
  by (simp add: draws_permutation_def numpy_choice_def numpy_draws_def upt_rec)

section \<open>Properties of the procedure\<close>

subsection \<open>Determinism\<close>




subsection \<open>Isolation of the working copies\<close>

text \<open>
  Claim C4. The working copy made for a feature has the columns of the original
  frame, and each of its columns under another name than the feature's is the
  original column, value by value in the original row order. In a run that returns a
  report, the model is shown the original frame and then, for each column in turn,
  the working copy made from the original frame for that column's feature, and the
  scorer is handed the original target at every call.
\<close>

theorem working_copies_isolated:
  "(\<forall>f X_c. shuffled_copy choice rs f X = Inr X_c \<longrightarrow>
      columns X_c = columns X \<and> (\<forall>i<length X. fst (X ! i) \<noteq> f \<longrightarrow> X_c ! i = X ! i)) \<and>
   (\<forall>report w'. evaluate predict scorer choice rs X y w = (Inr report, w') \<longrightarrow>
      (\<exists>copies.
         predict_frames (calls w') = predict_frames (calls w) @ X # copies \<and>
         length copies = length X \<and>
         (\<forall>j<length X. shuffled_copy choice rs (fst (X ! j)) X = Inr (copies ! j)) \<and>
         score_targets (calls w') = score_targets (calls w) @ replicate (length X + 1) y))"
proof (intro conjI allI impI)
  fix f X_c assume c: "shuffled_copy choice rs f X = Inr X_c"
  show "columns X_c = columns X" by (rule shuffled_copy_Inr(1) [OF c])
  fix i assume "i < length X" and "fst (X ! i) \<noteq> f"
  then show "X_c ! i = X ! i" by (rule shuffled_copy_Inr(3) [OF c])
next
  fix report w' assume run: "evaluate predict scorer choice rs X y w = (Inr report, w')"
  from evaluate_Inr [OF run] obtain p0 steps where
    st: "steps_ok predict scorer choice rs (rf w) X y (Suc (predictions_made w)) (columns X) steps" and
    w': "w' = w\<lparr>calls := calls w @ [PredictCall X, ScoreCall y p0] @ concat (map (step_events y) steps)\<rparr>"
    by blast
  note len = steps_nth(1) [OF st] and nth = steps_nth(2) [OF st]
  let ?copies = "map fst steps"
  have "predict_frames (calls w') = predict_frames (calls w) @ X # ?copies"
    by (simp add: w' predict_frames_append predict_frames_steps)
  moreover have "length ?copies = length X" using len by simp
  moreover have "\<forall>j<length X. shuffled_copy choice rs (fst (X ! j)) X = Inr (?copies ! j)"
    using nth len by simp
  moreover have "score_targets (calls w') = score_targets (calls w) @ replicate (length X + 1) y"
    by (simp add: w' score_targets_append score_targets_steps len)
  ultimately show "\<exists>copies.
         predict_frames (calls w') = predict_frames (calls w) @ X # copies \<and>
         length copies = length X \<and>
         (\<forall>j<length X. shuffled_copy choice rs (fst (X ! j)) X = Inr (copies ! j)) \<and>
         score_targets (calls w') = score_targets (calls w) @ replicate (length X + 1) y"
    by blast
qed

theorem working_copies_isolated_witness:
  "shuffled_copy numpy_choice 10 ''x'' frame_xc = Inr [(''x'', [1, 3, 2]), (''c'', [9, 9, 9])] \<and>
   columns [(''x'', [1, 3, 2 :: real]), (''c'', [9, 9, 9])] = columns frame_xc \<and>
   1 < length frame_xc \<and> fst (frame_xc ! 1) \<noteq> ''x'' \<and>
   [(''x'', [1, 3, 2]), (''c'', [9, 9, 9])] ! 1 = frame_xc ! 1 \<and>
   evaluate column_model abs_error numpy_choice 10 frame_xc target_123 (fitted_on ''x'') =
     (Inr [(''x'', - 2), (''c'', 0)], world_after_xc) \<and>
   (\<exists>copies.
      predict_frames (calls world_after_xc) =
        predict_frames (calls (fitted_on ''x'')) @ frame_xc # copies \<and>
      length copies = length frame_xc \<and>
      (\<forall>j<length frame_xc. shuffled_copy numpy_choice 10 (fst (frame_xc ! j)) frame_xc = Inr (copies ! j)) \<and>
      score_targets (calls world_after_xc) =
        score_targets (calls (fitted_on ''x'')) @ replicate (length frame_xc + 1) target_123)"
proof -
  note t = working_copies_isolated
    [of numpy_choice 10 frame_xc column_model abs_error target_123 "fitted_on ''x''"]
  have l: "1 < length frame_xc" and n: "fst (frame_xc ! 1) \<noteq> ''x''"
    by (simp_all add: frame_xc_def)
  from t shuffled_copy_x have
    "columns [(''x'', [1, 3, 2 :: real]), (''c'', [9, 9, 9])] = columns frame_xc" and
    a: "\<forall>i<length frame_xc. fst (frame_xc ! i) \<noteq> ''x'' \<longrightarrow>
        [(''x'', [1, 3, 2]), (''c'', [9, 9, 9])] ! i = frame_xc ! i"
    by blast+
  moreover from a l n have "[(''x'', [1, 3, 2]), (''c'', [9, 9, 9])] ! 1 = frame_xc ! 1" by blast
  moreover from t example_run have "\<exists>copies.
      predict_frames (calls world_after_xc) =
        predict_frames (calls (fitted_on ''x'')) @ frame_xc # copies \<and>
      length copies = length frame_xc \<and>
      (\<forall>j<length frame_xc. shuffled_copy numpy_choice 10 (fst (frame_xc ! j)) frame_xc = Inr (copies ! j)) \<and>
      score_targets (calls world_after_xc) =
        score_targets (calls (fitted_on ''x'')) @ replicate (length frame_xc + 1) target_123"
    by blast
  ultimately show ?thesis using shuffled_copy_x example_run l n by blast
qed

subsection \<open>Calls to the model\<close>

text \<open>
  Claim C8. \<open>evaluate\<close> leaves the fitted model as it found it, and calls the model's
  prediction at most once for the baseline and once per column; a call of \<open>evaluate\<close>
  that returns a report on a frame of \<open>k\<close> columns has made exactly \<open>k + 1\<close>
  prediction calls.
\<close>

theorem prediction_calls_counted:
  "rf (snd (evaluate predict scorer choice rs X y w)) = rf w \<and>
   length (predict_frames (calls (snd (evaluate predict scorer choice rs X y w))))
     \<le> length (predict_frames (calls w)) + length X + 1 \<and>
   (\<forall>report. fst (evaluate predict scorer choice rs X y w) = Inr report \<longrightarrow>
      length (predict_frames (calls (snd (evaluate predict scorer choice rs X y w))))
        = length (predict_frames (calls w)) + length X + 1)"
proof (intro conjI allI impI)
  let ?run = "evaluate predict scorer choice rs X y w"
  from evaluate_world [of predict scorer choice rs X y w] obtain new where
    m: "rf (snd ?run) = rf w" and
    c: "calls (snd ?run) = calls w @ PredictCall X # new" and
    n: "length (predict_frames new) \<le> length X"
    by blast
  show "rf (snd ?run) = rf w" by (rule m)
  show "length (predict_frames (calls (snd ?run))) \<le> length (predict_frames (calls w)) + length X + 1"
    using c n by (simp add: predict_frames_append)
  fix report assume ok: "fst ?run = Inr report"
  then have "?run = (Inr report, snd ?run)" by (simp add: prod_eq_iff)
  from evaluate_Inr [OF this] obtain p0 steps where
    st: "steps_ok predict scorer choice rs (rf w) X y (Suc (predictions_made w)) (columns X) steps" and
    w': "snd ?run = w\<lparr>calls := calls w @ [PredictCall X, ScoreCall y p0] @ concat (map (step_events y) steps)\<rparr>"
    by blast
  have "length steps = length X" by (rule steps_nth(1) [OF st])
  then show "length (predict_frames (calls (snd ?run))) = length (predict_frames (calls w)) + length X + 1"
    by (simp add: w' predict_frames_append predict_frames_steps)
qed

theorem prediction_calls_counted_witness:
  "fst (evaluate column_model abs_error numpy_choice 10 frame_xc target_123 (fitted_on ''x''))
     = Inr [(''x'', - 2), (''c'', 0)] \<and>
   length (predict_frames (calls (snd (evaluate column_model abs_error numpy_choice 10
      frame_xc target_123 (fitted_on ''x'')))))
     = length (predict_frames (calls (fitted_on ''x''))) + length frame_xc + 1"
  using prediction_calls_counted [of column_model abs_error numpy_choice 10 frame_xc target_123
      "fitted_on ''x''"] example_run
  by simp

subsection \<open>Shape of the report\<close>

text \<open>
  Claim C9. The report that \<open>evaluate\<close> returns names the columns of the input frame,
  each once and in the frame's order: it has one entry per column, and the names of
  its entries, read in order, are the frame's column names.
\<close>

theorem report_follows_columns:
  assumes "evaluate predict scorer choice rs X y w = (Inr report, w')"
  shows "map fst report = columns X \<and> length report = length X"
proof -
  from evaluate_Inr [OF assms] obtain train steps where
    st: "steps_ok predict scorer choice rs (rf w) X y (Suc (predictions_made w)) (columns X) steps" and
    r: "report = zip (columns X) (map (\<lambda>st. train - snd (snd st)) steps)"
    by blast
  have "length steps = length X" by (rule steps_nth(1) [OF st])
  then show ?thesis using r by (simp add: columns_def)
qed

theorem report_follows_columns_witness:
  "evaluate column_model abs_error numpy_choice 10 frame_xc target_123 (fitted_on ''x'') =
     (Inr [(''x'', - 2), (''c'', 0)], world_after_xc) \<and>
   map fst [(''x'', - 2 :: real), (''c'', 0)] = columns frame_xc \<and>
   length [(''x'', - 2 :: real), (''c'', 0)] = length frame_xc"
  by (rule conjI [OF example_run report_follows_columns [OF example_run]])

subsection \<open>Shuffled columns keep their values\<close>

text \<open>
  Claim C5. For a frame whose columns have \<open>N\<close> rows, a seed for which the generator
  draws the \<open>N\<close> positions without repetition, and a feature of the frame, the working
  copy is built, and the column it holds for the feature has exactly the values of
  the feature's original column, each as often as there: the two columns are equal
  as multisets.
\<close>

theorem shuffled_column_is_permutation:
  assumes "rows X N" and "draws_permutation choice seed N" and "f \<in> set (columns X)"
  shows "\<exists>X_c. shuffled_copy choice seed f X = Inr X_c \<and>
           (\<forall>i<length X. fst (X ! i) = f \<longrightarrow> mset (snd (X_c ! i)) = mset (snd (X ! i)))"
proof -
  have ok: "\<exists>col'. sample choice seed col = Inr col'" if "(name, col) \<in> set X" for name col
    using sample_permutation [of choice seed col] rows_mem [OF assms(1) that] assms(2) by auto
  from set_shuffled_succeeds [of X f choice seed] ok obtain X_c where
    "set_shuffled choice seed f X = Inr X_c"
    by blast
  with assms(3) have c: "shuffled_copy choice seed f X = Inr X_c"
    by (simp add: shuffled_copy_def)
  have "mset (snd (X_c ! i)) = mset (snd (X ! i))" if i: "i < length X" and f: "fst (X ! i) = f" for i
  proof -
    from shuffled_copy_Inr(4) [OF c i f]
    have s: "sample choice seed (snd (X ! i)) = Inr (snd (X_c ! i))" .
    have "draws_permutation choice seed (length (snd (X ! i)))"
      using assms(2) rows_nth [OF assms(1) i] by simp
    from sample_permutation [OF this] s show ?thesis by auto
  qed
  with c show ?thesis by blast
qed

theorem shuffled_column_is_permutation_witness:
  "rows frame_xc 3 \<and> draws_permutation numpy_choice 10 3 \<and> ''x'' \<in> set (columns frame_xc) \<and>
   (\<exists>X_c. shuffled_copy numpy_choice 10 ''x'' frame_xc = Inr X_c \<and>
      (\<forall>i<length frame_xc. fst (frame_xc ! i) = ''x'' \<longrightarrow>
         mset (snd (X_c ! i)) = mset (snd (frame_xc ! i))))"
proof -
  have r: "rows frame_xc 3" by (simp add: rows_def frame_xc_def)
  have d: "draws_permutation numpy_choice 10 3" by (rule numpy_draws_permutation_3)
  have m: "''x'' \<in> set (columns frame_xc)" by (simp add: columns_def frame_xc_def)
  from shuffled_column_is_permutation [OF r d m] r d m show ?thesis by blast
qed

subsection \<open>Constant columns\<close>




subsection \<open>Sign of the drift\<close>

text \<open>
  Claim C1, as stated, fails: the regression loop records \<open>train_rmse - shuff_rmse\<close>
  as it is. On four rows, which seed \<open>11\<close> draws in the order \<open>2, 3, 0, 1\<close>, with a
  baseline error of \<open>100\<close> that this shuffling raises to \<open>150\<close>, it records \<open>-50\<close>,
  where the negated delta of the specification is \<open>+50\<close>.
\<close>

theorem regression_drift_not_negated:
  "rmse target_z [100, 100, 150, 150] = Inr 100 \<and> rmse target_z [150, 150, 100, 100] = Inr 150 \<and>
   fst (regression_importance column_model rmse numpy_choice frame_z target_z (fitted_on ''z''))
     = Inr [(''z'', - 50)] \<and>
   spec_drift LOWER_IS_BETTER 100 150 = 50 \<and>
   fst (regression_importance column_model rmse numpy_choice frame_z target_z (fitted_on ''z''))
     \<noteq> Inr [(''z'', spec_drift LOWER_IS_BETTER 100 150)]"
proof -
  have "rmse target_z [100, 100, 150, 150] = Inr 100"
    and "rmse target_z [150, 150, 100, 100] = Inr 150"
    by (simp_all add: rmse_def target_z_def)
  moreover have "spec_drift LOWER_IS_BETTER 100 150 = 50"
    by (simp add: spec_drift_def)
  ultimately show ?thesis by (simp add: regression_run)
qed

text \<open>
  Claim C1, amended. In the regression loop, whose metric is the lower the better,
  the drift recorded for every feature is the raw delta, baseline score minus
  shuffled score, not negated: it is the opposite of the specification's drift for
  that direction, and a feature whose shuffling increases the error receives a
  strictly negative drift, with which the regression selection keeps it.
\<close>

theorem regression_drift_is_raw_delta:
  assumes "regression_importance predict mean_squared_error choice X y w = (Inr report, w')"
  shows "\<exists>p0 train.
           predict (rf w) (predictions_made w) X = Inr p0 \<and> mean_squared_error y p0 = Inr train \<and>
           (\<forall>j<length X. \<exists>X_c p shuff.
              shuffled_copy choice 11 (fst (X ! j)) X = Inr X_c \<and>
              predict (rf w) (Suc (predictions_made w) + j) X_c = Inr p \<and>
              mean_squared_error y p = Inr shuff \<and>
              report ! j = (fst (X ! j), train - shuff) \<and>
              snd (report ! j) = - spec_drift LOWER_IS_BETTER train shuff \<and>
              (train < shuff \<longrightarrow> snd (report ! j) < 0 \<and> fst (X ! j) \<in> set (feat report)))"
proof -
  from assms have run: "evaluate predict mean_squared_error choice 11 X y w = (Inr report, w')"
    by (simp add: regression_importance_def)
  from evaluate_Inr [OF run] obtain p0 train steps where
    b: "predict (rf w) (predictions_made w) X = Inr p0" "mean_squared_error y p0 = Inr train" and
    st: "steps_ok predict mean_squared_error choice 11 (rf w) X y (Suc (predictions_made w)) (columns X) steps" and
    r: "report = zip (columns X) (map (\<lambda>st. train - snd (snd st)) steps)"
    by blast
  note len = steps_nth(1) [OF st]
  have "\<exists>X_c p shuff.
      shuffled_copy choice 11 (fst (X ! j)) X = Inr X_c \<and>
      predict (rf w) (Suc (predictions_made w) + j) X_c = Inr p \<and>
      mean_squared_error y p = Inr shuff \<and>
      report ! j = (fst (X ! j), train - shuff) \<and>
      snd (report ! j) = - spec_drift LOWER_IS_BETTER train shuff \<and>
      (train < shuff \<longrightarrow> snd (report ! j) < 0 \<and> fst (X ! j) \<in> set (feat report))"
    if j: "j < length X" for j
  proof -
    let ?shuff = "snd (snd (steps ! j))"
    have e: "report ! j = (fst (X ! j), train - ?shuff)"
      using r j len by (simp add: columns_def)
    have "j < length report" using r j len by (simp add: columns_def)
    then have "report ! j \<in> set report" by simp
    with e have m: "(fst (X ! j), train - ?shuff) \<in> set report" by simp
    have "fst (X ! j) \<in> set (feat report)" if "train < ?shuff"
      using m that by (force simp: feat_def)
    moreover from e have "snd (report ! j) = - spec_drift LOWER_IS_BETTER train ?shuff"
      and "train < ?shuff \<longrightarrow> snd (report ! j) < 0"
      by (simp_all add: spec_drift_def)
    ultimately show ?thesis using steps_nth(2) [OF st j] e by blast
  qed
  with b show ?thesis by blast
qed

theorem regression_drift_is_raw_delta_witness:
  "regression_importance column_model rmse numpy_choice frame_z target_z (fitted_on ''z'') =
     (Inr [(''z'', - 50)], world_after_z) \<and>
   (\<exists>p0 train.
      column_model (rf (fitted_on ''z'')) (predictions_made (fitted_on ''z'')) frame_z = Inr p0 \<and>
      rmse target_z p0 = Inr train \<and>
      (\<forall>j<length frame_z. \<exists>X_c p shuff.
         shuffled_copy numpy_choice 11 (fst (frame_z ! j)) frame_z = Inr X_c \<and>
         column_model (rf (fitted_on ''z'')) (Suc (predictions_made (fitted_on ''z'')) + j) X_c = Inr p \<and>
         rmse target_z p = Inr shuff \<and>
         [(''z'', - 50)] ! j = (fst (frame_z ! j), train - shuff) \<and>
         snd ([(''z'', - 50)] ! j) = - spec_drift LOWER_IS_BETTER train shuff \<and>
         (train < shuff \<longrightarrow>
            snd ([(''z'', - 50 :: real)] ! j) < 0 \<and> fst (frame_z ! j) \<in> set (feat [(''z'', - 50)]))))"
  by (rule conjI [OF regression_run regression_drift_is_raw_delta [OF regression_run]])

subsection \<open>Selection\<close>

text \<open>
  Claim C2, as stated, fails: the selection is a boolean mask over the series and
  keeps the order of the columns. For drifts \<open>1\<close> and \<open>2\<close> of columns \<open>a\<close> and \<open>b\<close> it
  returns \<open>a, b\<close>, not \<open>b, a\<close>; and the regression notebook keeps the features of
  negative drift.
\<close>

theorem selection_not_sorted_by_drift:
  "selected_features [(''a'', 1), (''b'', 2)] = [''a'', ''b''] \<and>
   select_spec [(''a'', 1), (''b'', 2)] 0 = [''b'', ''a''] \<and>
   selected_features [(''a'', 1), (''b'', 2)] \<noteq> select_spec [(''a'', 1), (''b'', 2)] 0 \<and>
   feat [(''a'', - 1), (''b'', 2)] = [''a''] \<and>
   select_spec [(''a'', - 1), (''b'', 2)] 0 = [''b'']"
  by (simp add: selected_features_def select_spec_def feat_def)

text \<open>
  Claim C2, amended. At the threshold \<open>0\<close>, the only one the code uses, the
  classification selection returns exactly the feature names whose drift strictly
  exceeds \<open>0\<close>, in the original column order: the same names as the specification's
  selection, not reordered by drift. The regression selection returns exactly the
  names whose drift is strictly below \<open>0\<close>, in the original column order.
\<close>

theorem selection_keeps_column_order:
  "set (selected_features fi) = {name. \<exists>drift. (name, drift) \<in> set fi \<and> 0 < drift} \<and>
   subseq (selected_features fi) (map fst fi) \<and>
   mset (selected_features fi) = mset (select_spec fi 0) \<and>
   set (feat fi) = {name. \<exists>drift. (name, drift) \<in> set fi \<and> drift < 0} \<and>
   subseq (feat fi) (map fst fi)"
proof (intro conjI)
  show "set (selected_features fi) = {name. \<exists>drift. (name, drift) \<in> set fi \<and> 0 < drift}"
    by (force simp: selected_features_def)
  show "subseq (selected_features fi) (map fst fi)"
    unfolding selected_features_def by (intro subseq_map subseq_filter_left)
  show "mset (selected_features fi) = mset (select_spec fi 0)"
    by (simp add: selected_features_def select_spec_def)
  show "set (feat fi) = {name. \<exists>drift. (name, drift) \<in> set fi \<and> drift < 0}"
    by (force simp: feat_def)
  show "subseq (feat fi) (map fst fi)"
    unfolding feat_def by (intro subseq_map subseq_filter_left)
qed

subsection \<open>Validation of the input\<close>

text \<open>
  Claim C7, as stated, fails: there is no check of the input. With two rows against
  a target of one value, the baseline prediction is made first; then a scorer that
  compares lengths raises its own error, and a scorer that pairs the values as far as
  they go lets the run return a report. A frame without columns reaches the model
  too, and a frame without rows yields a report.
\<close>

theorem no_shape_or_emptiness_check:
  "evaluate column_model rmse numpy_choice 10 frame_x target_short (fitted_on ''x'') =
     (Inl (ScorerRaised ''inconsistent numbers of samples''),
      \<lparr>rf = ''x'', calls = [PredictCall [(''x'', [1, 2])], ScoreCall [1] [1, 2]]\<rparr>) \<and>
   fst (evaluate column_model abs_error numpy_choice 10 frame_x target_short (fitted_on ''x''))
     = Inr [(''x'', 0)] \<and>
   evaluate column_model abs_error numpy_choice 10 [] target_short (fitted_on ''x'') =
     (Inl (PredictRaised ''unknown column''), \<lparr>rf = ''x'', calls = [PredictCall []]\<rparr>) \<and>
   fst (evaluate column_model abs_error numpy_choice 10 [(''x'', [])] [] (fitted_on ''x''))
     = Inr [(''x'', 0)]"
  by (simp add: evaluate_def performance_def call_predict_def call_scorer_def columns_def
      shuffled_copy_def sample_def feature_importance_def column_model_def abs_error_def rmse_def
      numpy_choice_def numpy_draws_def fitted_on_def frame_x_def target_short_def
      predictions_made_def Let_def upt_rec)

text \<open>
  Claim C7, amended. \<open>evaluate\<close> makes no check of its own for a row-count mismatch or
  an empty matrix. Its first action is always the baseline prediction call on the
  matrix as given. When it fails, the error is the one raised by a prediction call
  or by a scoring call (or pandas' error for a position drawn out of range), and no
  report is returned. When every prediction and scoring call succeeds and the
  positions are drawn in range, it returns a report, whatever the shapes.
\<close>

theorem evaluate_fails_only_in_calls:
  "(\<exists>new. calls (snd (evaluate predict scorer choice rs X y w)) = calls w @ PredictCall X # new) \<and>
   (\<forall>e. fst (evaluate predict scorer choice rs X y w) = Inl e \<longrightarrow>
      (\<exists>k X' msg. e = PredictRaised msg \<and> predict (rf w) k X' = Inl msg) \<or>
      (\<exists>p msg. e = ScorerRaised msg \<and> scorer y p = Inl msg) \<or>
      (e = IndexError \<and> \<not> in_range choice rs X)) \<and>
   ((\<forall>k X'. columns X' = columns X \<longrightarrow> (\<exists>p. predict (rf w) k X' = Inr p)) \<and>
    (\<forall>p. \<exists>s. scorer y p = Inr s) \<and> in_range choice rs X \<longrightarrow>
      (\<exists>report. fst (evaluate predict scorer choice rs X y w) = Inr report))"
proof (intro conjI allI impI)
  show "\<exists>new. calls (snd (evaluate predict scorer choice rs X y w)) = calls w @ PredictCall X # new"
    using evaluate_world [of predict scorer choice rs X y w] by blast
next
  fix e assume "fst (evaluate predict scorer choice rs X y w) = Inl e"
  then show "(\<exists>k X' msg. e = PredictRaised msg \<and> predict (rf w) k X' = Inl msg) \<or>
      (\<exists>p msg. e = ScorerRaised msg \<and> scorer y p = Inl msg) \<or>
      (e = IndexError \<and> \<not> in_range choice rs X)"
    by (rule evaluate_Inl)
next
  assume "(\<forall>k X'. columns X' = columns X \<longrightarrow> (\<exists>p. predict (rf w) k X' = Inr p)) \<and>
    (\<forall>p. \<exists>s. scorer y p = Inr s) \<and> in_range choice rs X"
  then show "\<exists>report. fst (evaluate predict scorer choice rs X y w) = Inr report"
    using evaluate_succeeds [where predict = predict and w = w and scorer = scorer and y = y
        and X = X and choice = choice and rs = rs] by blast
qed

theorem evaluate_fails_only_in_calls_witness:
  "fst (evaluate column_model rmse numpy_choice 10 frame_x target_short (fitted_on ''x''))
     = Inl (ScorerRaised ''inconsistent numbers of samples'') \<and>
   (\<exists>p msg. ScorerRaised ''inconsistent numbers of samples'' = ScorerRaised msg \<and>
      rmse target_short p = Inl msg) \<and>
   (\<forall>p. \<exists>s. abs_error target_short p = Inr s) \<and> in_range numpy_choice 10 frame_x \<and>
   (\<exists>report. fst (evaluate column_model abs_error numpy_choice 10 frame_x target_short (fitted_on ''x''))
      = Inr report)"
proof -
  note strict = evaluate_fails_only_in_calls
    [of column_model rmse numpy_choice 10 frame_x target_short "fitted_on ''x''"]
  note lenient = evaluate_fails_only_in_calls
    [of column_model abs_error numpy_choice 10 frame_x target_short "fitted_on ''x''"]
  have f: "fst (evaluate column_model rmse numpy_choice 10 frame_x target_short (fitted_on ''x''))
     = Inl (ScorerRaised ''inconsistent numbers of samples'')"
    by (simp add: evaluate_def performance_def call_predict_def call_scorer_def
        column_model_def rmse_def fitted_on_def frame_x_def target_short_def)
  have P: "\<forall>k X'. columns X' = columns frame_x \<longrightarrow>
      (\<exists>p. column_model (rf (fitted_on ''x'')) k X' = Inr p)"
  proof (intro allI impI)
    fix k and X' :: "real frame" assume "columns X' = columns frame_x"
    then have "''x'' \<in> set (columns X')" by (simp add: columns_def frame_x_def)
    then show "\<exists>p. column_model (rf (fitted_on ''x'')) k X' = Inr p"
      by (simp add: fitted_on_def column_model_total)
  qed
  have S: "\<forall>p. \<exists>s. abs_error target_short p = Inr s" by (simp add: abs_error_def)
  have R: "in_range numpy_choice 10 frame_x"
    by (simp add: in_range_def numpy_choice_def numpy_draws_def frame_x_def upt_rec)
  from strict f have "\<exists>p msg. ScorerRaised ''inconsistent numbers of samples'' = ScorerRaised msg \<and>
      rmse target_short p = Inl msg"
    by blast
  moreover from lenient P S R
  have "\<exists>report. fst (evaluate column_model abs_error numpy_choice 10 frame_x target_short (fitted_on ''x''))
      = Inr report"
    by blast
  ultimately show ?thesis using f S R by blast
qed

subsection \<open>One permutation for all columns\<close>




end
